theory Spec2Isabelle
  imports Complex_Main
begin

section \<open>Data model of \<^verbatim>\<open>main.py\<close>\<close>

text \<open>
  The pydantic models \<^verbatim>\<open>ProfileData\<close> and \<^verbatim>\<open>ErrorResponse\<close>. The optional fields
  \<^verbatim>\<open>bio\<close> and \<^verbatim>\<open>full_name\<close> default to \<^verbatim>\<open>None\<close>.
\<close>

record ProfileData =
  username :: string
  followers :: int
  following :: int
  dp :: string
  is_verified :: bool
  posts_count :: int
  bio :: "string option"
  full_name :: "string option"

record ErrorResponse =
  error :: string
  details :: string

text \<open>
  The exceptions that can travel through the handler. A constructor stands for the
  instances of that class (subclasses included) that are not instances of a class listed
  before it, which is how the chain of \<^verbatim>\<open>except\<close> clauses tells them apart.
  The three instaloader exceptions and \<open>Exception\<close> carry the text of \<^verbatim>\<open>str(e)\<close>;
  \<open>HTTPException\<close> carries \<^verbatim>\<open>status_code\<close> and the \<^verbatim>\<open>detail\<close> dictionary; \<open>KeyError\<close> carries
  the missing key.
\<close>

datatype exn =
    ProfileNotExistsException string
  | ConnectionException string
  | InstaloaderException string
  | HTTPException nat ErrorResponse
  | KeyError string
  | Exception string

text \<open>
  An \<^verbatim>\<open>instaloader.Profile\<close> as the handler sees it: every attribute read either gives
  a value or raises. \<^verbatim>\<open>userid\<close> may be missing (\<open>None\<close>); the attributes whose names
  coincide with fields of \<open>ProfileData\<close> are prefixed with \<open>profile_\<close>.
\<close>

record Profile =
  userid :: "exn + int option"
  profile_username :: "exn + string"
  profile_followers :: "exn + int"
  followees :: "exn + int"
  profile_pic_url :: "exn + string"
  profile_is_verified :: "exn + bool"
  mediacount :: "exn + int"
  biography :: "exn + string"
  profile_full_name :: "exn + string"

section \<open>The profile cache\<close>

text \<open>
  Modelled from the spec: \<^verbatim>\<open>cachetools.TTLCache\<close>, the class behind \<^verbatim>\<open>profile_cache\<close>,
  is imported by \<^verbatim>\<open>main.py\<close> and its code is not part of the repository. The model
  follows section 4.1 of the specification: a bounded store of entries, each with an
  expiration time fixed when it is stored; an expired entry is absent for every read;
  \<open>put\<close> sweeps the expired entries, overwrites an entry of the same key and evicts by
  recency when the store is full. The list is ordered from least to most recently used.
\<close>

record CacheEntry =
  entry_key :: string
  entry_record :: ProfileData
  expires :: real

type_synonym cache = "CacheEntry list"

definition cache_lookup :: "cache \<Rightarrow> string \<Rightarrow> real \<Rightarrow> ProfileData option" where
  "cache_lookup c k now =
     (case find (\<lambda>e. entry_key e = k) c of
        None \<Rightarrow> None
      | Some e \<Rightarrow> if now < expires e then Some (entry_record e) else None)"

text \<open>\<^verbatim>\<open>key in profile_cache\<close>\<close>

definition cache_contains :: "cache \<Rightarrow> string \<Rightarrow> real \<Rightarrow> bool" where
  "cache_contains c k now = (cache_lookup c k now \<noteq> None)"

text \<open>\<^verbatim>\<open>profile_cache[key]\<close>: a hit makes the entry the most recently used one.\<close>

definition touch :: "cache \<Rightarrow> string \<Rightarrow> cache" where
  "touch c k = filter (\<lambda>e. entry_key e \<noteq> k) c @ filter (\<lambda>e. entry_key e = k) c"

definition cache_get :: "cache \<Rightarrow> string \<Rightarrow> real \<Rightarrow> ProfileData option \<times> cache" where
  "cache_get c k now =
     (case cache_lookup c k now of
        None \<Rightarrow> (None, c)
      | Some v \<Rightarrow> (Some v, touch c k))"

text \<open>The eviction loop of \<open>put\<close>: drop least recently used entries until one more fits.\<close>

fun make_room :: "nat \<Rightarrow> cache \<Rightarrow> cache" where
  "make_room maxsize [] = []"
| "make_room maxsize (e # c) =
     (if length (e # c) + 1 > maxsize then make_room maxsize c else e # c)"

definition expire :: "cache \<Rightarrow> real \<Rightarrow> cache" where
  "expire c now = filter (\<lambda>e. now < expires e) c"

text \<open>\<^verbatim>\<open>profile_cache[key] = value\<close>\<close>

definition cache_put :: "nat \<Rightarrow> real \<Rightarrow> cache \<Rightarrow> string \<Rightarrow> ProfileData \<Rightarrow> real \<Rightarrow> cache" where
  "cache_put maxsize ttl c k v now =
     make_room maxsize (filter (\<lambda>e. entry_key e \<noteq> k) (expire c now))
       @ [\<lparr>entry_key = k, entry_record = v, expires = now + ttl\<rparr>]"

text \<open>\<^verbatim>\<open>len(profile_cache)\<close>: the entries that have not expired.\<close>

definition cache_len :: "cache \<Rightarrow> real \<Rightarrow> nat" where
  "cache_len c now = length (expire c now)"

text \<open>\<^verbatim>\<open>profile_cache = TTLCache(maxsize=1000, ttl=3600)\<close>\<close>

definition maxsize :: nat where
  "maxsize = 1000"

definition ttl :: real where
  "ttl = 3600"

section \<open>The rate limiter\<close>

text \<open>
  Modelled from the spec: \<^verbatim>\<open>slowapi.Limiter\<close> and its decorator \<^verbatim>\<open>limiter.limit\<close> are
  imported by \<^verbatim>\<open>main.py\<close> and their code is not part of the repository. The model
  follows sections 3 and 4.2 of the specification: one \<open>RateBudget\<close> for each client
  identity, created at the identity's first request, holding the start of its window and
  the count consumed in it; the budget starts again once its window has elapsed.
  \<^verbatim>\<open>"10/minute"\<close> is a limit of 10 in a window of 60 seconds.
\<close>

record RateBudget =
  window_start :: real
  consumed :: nat

type_synonym RateLimiter = "string \<Rightarrow> RateBudget option"

definition limit :: nat where
  "limit = 10"

definition window :: real where
  "window = 60"

definition checkAndConsume :: "RateLimiter \<Rightarrow> string \<Rightarrow> real \<Rightarrow> bool \<times> RateLimiter" where
  "checkAndConsume rl ident now =
     (case rl ident of
        None \<Rightarrow> (True, rl(ident \<mapsto> \<lparr>window_start = now, consumed = 1\<rparr>))
      | Some b \<Rightarrow>
          if window_start b + window \<le> now then
            (True, rl(ident \<mapsto> \<lparr>window_start = now, consumed = 1\<rparr>))
          else if consumed b < limit then
            (True, rl(ident \<mapsto> b\<lparr>consumed := consumed b + 1\<rparr>))
          else (False, rl))"

section \<open>State and environment of one request\<close>

text \<open>
  The module-level state: the cache, the limiter, and a log of the usernames handed to
  \<^verbatim>\<open>instaloader.Profile.from_username\<close>, kept to say which requests reach Instagram.
\<close>

record state =
  profile_cache :: cache
  limiter :: RateLimiter
  fetched :: "string list"

text \<open>
  What one request reads from outside: the outcome of \<^verbatim>\<open>Profile.from_username\<close>, the
  limiter's clock, the cache's clock at the membership test, at the read and at the write
  (\<^verbatim>\<open>time.monotonic\<close> is read anew by each operation), and the two library
  renderings used by \<^verbatim>\<open>str(e)\<close>: of an \<open>HTTPException\<close> and of the key of a \<open>KeyError\<close>.
\<close>

record env =
  from_username :: "string \<Rightarrow> exn + Profile"
  t_limit :: real
  t_contains :: real
  t_getitem :: real
  t_setitem :: real
  str_HTTPException :: "nat \<Rightarrow> ErrorResponse \<Rightarrow> string"
  repr :: "string \<Rightarrow> string"

text \<open>
  \<^verbatim>\<open>str.lower\<close>, on ASCII letters (the alphabet of Instagram usernames); every other
  character is left as it is.
\<close>

definition lower_char :: "char \<Rightarrow> char" where
  "lower_char ch =
     (case map_of (zip ''ABCDEFGHIJKLMNOPQRSTUVWXYZ'' ''abcdefghijklmnopqrstuvwxyz'') ch of
        Some d \<Rightarrow> d
      | None \<Rightarrow> ch)"

definition lower :: "string \<Rightarrow> string" where
  "lower s = map lower_char s"

fun str :: "env \<Rightarrow> exn \<Rightarrow> string" where
  "str ev (ProfileNotExistsException m) = m"
| "str ev (ConnectionException m) = m"
| "str ev (InstaloaderException m) = m"
| "str ev (HTTPException st d) = str_HTTPException ev st d"
| "str ev (KeyError k) = repr ev k"
| "str ev (Exception m) = m"

section \<open>The handler \<^verbatim>\<open>get_instagram_profile\<close>\<close>

definition bind_exn :: "exn + 'a \<Rightarrow> ('a \<Rightarrow> exn + 'b) \<Rightarrow> exn + 'b" where
  "bind_exn m f = (case m of Inl e \<Rightarrow> Inl e | Inr x \<Rightarrow> f x)"

text \<open>
  The construction \<^verbatim>\<open>ProfileData(username=profile.username, ...)\<close>: the attributes are
  read in the order of the keyword arguments, and the first read that raises ends it.
  The attributes have the types that instaloader declares for them (\<^verbatim>\<open>biography\<close> and
  \<^verbatim>\<open>full_name\<close> are strings); the validation error that pydantic raises for a value
  of another type, before anything is written to the cache, is not modelled.
\<close>

definition make_ProfileData :: "Profile \<Rightarrow> exn + ProfileData" where
  "make_ProfileData p =
     bind_exn (profile_username p) (\<lambda>u.
     bind_exn (profile_followers p) (\<lambda>fo.
     bind_exn (followees p) (\<lambda>fe.
     bind_exn (profile_pic_url p) (\<lambda>pic.
     bind_exn (profile_is_verified p) (\<lambda>ver.
     bind_exn (mediacount p) (\<lambda>mc.
     bind_exn (biography p) (\<lambda>b.
     bind_exn (profile_full_name p) (\<lambda>fn.
       Inr \<lparr>username = u, followers = fo, following = fe, dp = pic, is_verified = ver,
            posts_count = mc, bio = Some b, full_name = Some fn\<rparr>))))))))"

text \<open>\<^verbatim>\<open>not profile.userid\<close>\<close>

definition falsy :: "int option \<Rightarrow> bool" where
  "falsy uid = (uid = None \<or> uid = Some 0)"

text \<open>
  The inner \<^verbatim>\<open>try\<close> around \<^verbatim>\<open>Profile.from_username\<close>: a \<open>ProfileNotExistsException\<close>
  is replaced by an \<open>HTTPException\<close> with status 404, raised inside the outer
  \<^verbatim>\<open>try\<close>.
\<close>

definition fetch_profile :: "env \<Rightarrow> string \<Rightarrow> exn + Profile" where
  "fetch_profile ev uname =
     (case from_username ev (lower uname) of
        Inl (ProfileNotExistsException m) \<Rightarrow>
          Inl (HTTPException 404
                 \<lparr>error = ''Profile not found'',
                  details = ''@'' @ uname @ '' doesn't exist on Instagram''\<rparr>)
      | Inl e \<Rightarrow> Inl e
      | Inr p \<Rightarrow> Inr p)"

text \<open>The body of the outer \<^verbatim>\<open>try\<close>: the value returned or the exception raised.\<close>

definition try_body :: "env \<Rightarrow> state \<Rightarrow> string \<Rightarrow> (exn + ProfileData) \<times> state" where
  "try_body ev s uname =
     (if cache_contains (profile_cache s) (lower uname) (t_contains ev) then
        (case cache_get (profile_cache s) (lower uname) (t_getitem ev) of
           (None, c) \<Rightarrow> (Inl (KeyError (lower uname)), s\<lparr>profile_cache := c\<rparr>)
         | (Some v, c) \<Rightarrow> (Inr v, s\<lparr>profile_cache := c\<rparr>))
      else
        (let s1 = s\<lparr>fetched := fetched s @ [lower uname]\<rparr> in
         case fetch_profile ev uname of
           Inl e \<Rightarrow> (Inl e, s1)
         | Inr profile \<Rightarrow>
             (case userid profile of
                Inl e \<Rightarrow> (Inl e, s1)
              | Inr uid \<Rightarrow>
                  if falsy uid then
                    (Inl (HTTPException 404
                            \<lparr>error = ''Profile not found'',
                             details = ''Invalid profile data received''\<rparr>), s1)
                  else
                    (case make_ProfileData profile of
                       Inl e \<Rightarrow> (Inl e, s1)
                     | Inr profile_data \<Rightarrow>
                         (Inr profile_data,
                          s1\<lparr>profile_cache :=
                               cache_put maxsize ttl (profile_cache s1) (lower uname)
                                 profile_data (t_setitem ev)\<rparr>)))))"

text \<open>
  What the HTTP layer receives from the handler: the returned \<open>ProfileData\<close> (status 200)
  or the \<open>HTTPException\<close> it raised, with its status code and detail.
\<close>

datatype response =
    Ok200 ProfileData
  | HTTPError nat ErrorResponse
  | RateLimited

text \<open>The outer \<^verbatim>\<open>except\<close> clauses, in the order of the source.\<close>

fun handle_exn :: "env \<Rightarrow> exn \<Rightarrow> response" where
  "handle_exn ev (ProfileNotExistsException m) =
     HTTPError 404 \<lparr>error = ''Profile not found'', details = m\<rparr>"
| "handle_exn ev (ConnectionException m) =
     HTTPError 503 \<lparr>error = ''Instagram connection failed'',
                    details = ''Instagram may be blocking requests. Try again later.''\<rparr>"
| "handle_exn ev (InstaloaderException m) =
     HTTPError 500 \<lparr>error = ''Instagram data fetch failed'', details = m\<rparr>"
| "handle_exn ev e =
     HTTPError 500 \<lparr>error = ''Internal server error'', details = str ev e\<rparr>"

definition get_instagram_profile :: "env \<Rightarrow> state \<Rightarrow> string \<Rightarrow> response \<times> state" where
  "get_instagram_profile ev s uname =
     (case try_body ev s uname of
        (Inr profile_data, s') \<Rightarrow> (Ok200 profile_data, s')
      | (Inl e, s') \<Rightarrow> (handle_exn ev e, s'))"

fun status_code :: "response \<Rightarrow> nat" where
  "status_code (Ok200 v) = 200"
| "status_code (HTTPError st d) = st"
| "status_code RateLimited = 429"

text \<open>
  The handler under \<^verbatim>\<open>@limiter.limit("10/minute")\<close>, the limiter keyed by
  \<^verbatim>\<open>get_remote_address\<close>: a denied request is answered with status 429 and the handler
  is not called. The budget is kept for the remote address alone, as the specification
  has it for a client identity.
\<close>

definition limited_get_instagram_profile ::
  "env \<Rightarrow> state \<Rightarrow> string \<Rightarrow> string \<Rightarrow> response \<times> state" where
  "limited_get_instagram_profile ev s remote_address uname =
     (case checkAndConsume (limiter s) remote_address (t_limit ev) of
        (False, rl) \<Rightarrow> (RateLimited, s\<lparr>limiter := rl\<rparr>)
      | (True, rl) \<Rightarrow> get_instagram_profile ev (s\<lparr>limiter := rl\<rparr>) uname)"

section \<open>The HTTP surface\<close>

text \<open>
  The routes of the application, tried in the order of their registration, on the method
  and the segments of the path: the documentation routes that \<^verbatim>\<open>FastAPI(...)\<close> registers
  by default (\<^verbatim>\<open>/openapi.json\<close>, \<^verbatim>\<open>/docs\<close>, \<^verbatim>\<open>/docs/oauth2-redirect\<close>, \<^verbatim>\<open>/redoc\<close>), then
  those that \<^verbatim>\<open>main.py\<close> declares: \<^verbatim>\<open>@app.get("/instagram/{username}")\<close>,
  \<^verbatim>\<open>@app.get("/health")\<close>, the mount \<^verbatim>\<open>/static\<close> and \<^verbatim>\<open>@app.get("/")\<close>. A path
  parameter matches one non-empty segment; the mount serves the paths below
  \<^verbatim>\<open>/static/\<close>, and \<^verbatim>\<open>/static\<close> itself reaches no endpoint (it is redirected).
\<close>

datatype endpoint =
    Documentation "string list"
  | InstagramProfile string
  | HealthCheck
  | StaticFiles "string list"
  | ServeHome

definition route :: "string \<Rightarrow> string list \<Rightarrow> endpoint option" where
  "route method path =
     (case path of
        [] \<Rightarrow> if method = ''GET'' then Some ServeHome else None
      | seg # rest \<Rightarrow>
          if (method = ''GET'' \<or> method = ''HEAD'')
             \<and> (seg # rest = [''openapi.json''] \<or> seg # rest = [''docs'']
                  \<or> seg # rest = [''docs'', ''oauth2-redirect''] \<or> seg # rest = [''redoc''])
          then Some (Documentation (seg # rest))
          else if method = ''GET'' \<and> seg = ''instagram'' \<and> length rest = 1 \<and> hd rest \<noteq> [] then
            Some (InstagramProfile (hd rest))
          else if method = ''GET'' \<and> seg = ''health'' \<and> rest = [] then Some HealthCheck
          else if (method = ''GET'' \<or> method = ''HEAD'') \<and> seg = ''static'' \<and> rest \<noteq> [] then
            Some (StaticFiles rest)
          else None)"

text \<open>
  \<^verbatim>\<open>health_check\<close> returns a dictionary, which is answered with status 200; its arguments
  are the value of \<^verbatim>\<open>time.time()\<close> and the cache's clock at \<^verbatim>\<open>len(profile_cache)\<close>.
\<close>

datatype json = JString string | JFloat real | JInt int

definition health_check :: "real \<Rightarrow> real \<Rightarrow> state \<Rightarrow> (string \<times> json) list" where
  "health_check time_now cache_now s =
     [(''status'', JString ''healthy''),
      (''timestamp'', JFloat time_now),
      (''cache_size'', JInt (int (cache_len (profile_cache s) cache_now)))]"

definition health_response :: "real \<Rightarrow> real \<Rightarrow> state \<Rightarrow> nat \<times> (string \<times> json) list" where
  "health_response time_now cache_now s = (200, health_check time_now cache_now s)"

section \<open>Sequences of cache operations and of requests\<close>

datatype cache_op =
    Contains string real
  | Get string real
  | Put string ProfileData real
  | Len real

fun apply_cache_op :: "cache \<Rightarrow> cache_op \<Rightarrow> cache" where
  "apply_cache_op c (Contains k now) = c"
| "apply_cache_op c (Get k now) = snd (cache_get c k now)"
| "apply_cache_op c (Put k v now) = cache_put maxsize ttl c k v now"
| "apply_cache_op c (Len now) = c"

fun is_read :: "cache_op \<Rightarrow> bool" where
  "is_read (Put k v now) = False"
| "is_read other = True"

definition run_cache :: "cache \<Rightarrow> cache_op list \<Rightarrow> cache" where
  "run_cache c ops = foldl apply_cache_op c ops"

fun put_op :: "string \<times> ProfileData \<times> real \<Rightarrow> cache_op" where
  "put_op (k, v, now) = Put k v now"

definition cache_inv :: "cache \<Rightarrow> bool" where
  "cache_inv c = (distinct (map entry_key c) \<and> length c \<le> maxsize)"

text \<open>The entry that a \<open>put\<close> of key, record and time stores.\<close>

definition entry_of :: "string \<times> ProfileData \<times> real \<Rightarrow> CacheEntry" where
  "entry_of p = \<lparr>entry_key = fst p, entry_record = fst (snd p), expires = snd (snd p) + ttl\<rparr>"

text \<open>
  The decisions of the limiter on the requests of one identity, in a sequence of requests
  (identity and time) of any identities.
\<close>

fun decisions :: "RateLimiter \<Rightarrow> string \<Rightarrow> (string \<times> real) list \<Rightarrow> bool list" where
  "decisions rl i [] = []"
| "decisions rl i ((j, now) # reqs) =
     (case checkAndConsume rl j now of
        (ok, rl') \<Rightarrow> (if j = i then [ok] else []) @ decisions rl' i reqs)"

text \<open>
  The number of requests of an identity that are admitted and whose time lies in the
  interval from \<open>lo\<close> to \<open>hi\<close> (\<open>hi\<close> excluded).
\<close>

definition admitted_in ::
  "RateLimiter \<Rightarrow> string \<Rightarrow> (string \<times> real) list \<Rightarrow> real \<Rightarrow> real \<Rightarrow> nat" where
  "admitted_in rl i reqs lo hi =
     length (filter (\<lambda>(r, ok). ok \<and> lo \<le> snd r \<and> snd r < hi)
               (zip (filter (\<lambda>r. fst r = i) reqs) (decisions rl i reqs)))"

text \<open>An identity has a full budget at a time when it has no window running.\<close>

definition fresh :: "RateLimiter \<Rightarrow> string \<Rightarrow> real \<Rightarrow> bool" where
  "fresh rl i now =
     (case rl i of None \<Rightarrow> True | Some b \<Rightarrow> window_start b + window \<le> now)"

section \<open>Sample inputs\<close>

definition sample_data :: ProfileData where
  "sample_data =
     \<lparr>username = ''alice'', followers = 120, following = 80,
      dp = ''https://example.com/alice.jpg'', is_verified = False, posts_count = 7,
      bio = Some ''hello'', full_name = Some ''Alice''\<rparr>"

definition sample_profile :: "int option \<Rightarrow> Profile" where
  "sample_profile uid =
     \<lparr>userid = Inr uid, profile_username = Inr ''alice'', profile_followers = Inr 120,
      followees = Inr 80, profile_pic_url = Inr ''https://example.com/alice.jpg'',
      profile_is_verified = Inr False, mediacount = Inr 7, biography = Inr ''hello'',
      profile_full_name = Inr ''Alice''\<rparr>"

definition sample_env :: "(exn + Profile) \<Rightarrow> real \<Rightarrow> env" where
  "sample_env outcome now =
     \<lparr>from_username = (\<lambda>k. outcome), t_limit = now, t_contains = now, t_getitem = now,
      t_setitem = now, str_HTTPException = (\<lambda>st d. error d),
      repr = (\<lambda>k. [CHR 0x27] @ k @ [CHR 0x27])\<rparr>"

definition initial_state :: state where
  "initial_state = \<lparr>profile_cache = [], limiter = Map.empty, fetched = []\<rparr>"

definition sample_key :: "nat \<Rightarrow> string" where
  "sample_key n = replicate n (CHR ''a'')"

definition sample_puts :: "nat \<Rightarrow> (string \<times> ProfileData \<times> real) list" where
  "sample_puts n = map (\<lambda>i. (sample_key i, sample_data, 0)) [0..<n]"

text \<open>
  Eleven requests of one address within eleven seconds, with two requests of another
  address among them.
\<close>

definition sample_requests :: "(string \<times> real) list" where
  "sample_requests =
     [(''10.0.0.1'', 0), (''10.0.0.1'', 1), (''10.0.0.2'', 1), (''10.0.0.1'', 2),
      (''10.0.0.1'', 3), (''10.0.0.1'', 4), (''10.0.0.1'', 5), (''10.0.0.1'', 6),
      (''10.0.0.1'', 7), (''10.0.0.1'', 8), (''10.0.0.1'', 9), (''10.0.0.2'', 9),
      (''10.0.0.1'', 10)]"

text \<open>
  Twenty requests of one address: one at time 0, nine at the end of the window it opens,
  and ten at the start of the next window.
\<close>

definition burst_requests :: "(string \<times> real) list" where
  "burst_requests =
     [(''10.0.0.1'', 0), (''10.0.0.1'', 59), (''10.0.0.1'', 59), (''10.0.0.1'', 59),
      (''10.0.0.1'', 59), (''10.0.0.1'', 59), (''10.0.0.1'', 59), (''10.0.0.1'', 59),
      (''10.0.0.1'', 59), (''10.0.0.1'', 59), (''10.0.0.1'', 60), (''10.0.0.1'', 60),
      (''10.0.0.1'', 60), (''10.0.0.1'', 60), (''10.0.0.1'', 60), (''10.0.0.1'', 60),
      (''10.0.0.1'', 60), (''10.0.0.1'', 60), (''10.0.0.1'', 60), (''10.0.0.1'', 60)]"

section \<open>Error mapping of the handler\<close>

lemma cache_lookup_earlier:
  "cache_lookup c k t2 = Some v \<Longrightarrow> t1 \<le> t2 \<Longrightarrow> cache_lookup c k t1 = Some v"
  by (auto simp: cache_lookup_def split: option.splits if_splits)

lemma try_body_raise_cache:
  "fst (try_body ev s uname) = Inl e \<Longrightarrow>
   profile_cache (snd (try_body ev s uname)) = profile_cache s"
  by (auto simp: try_body_def cache_get_def Let_def split: option.splits sum.splits if_splits)

lemma handle_exn_status:
  "\<exists>st d. handle_exn ev e = HTTPError st d \<and> (st = 404 \<or> st = 503 \<or> st = 500)"
  by (cases e) simp_all

lemma handler_failure_cache:
  "\<forall>v. fst (get_instagram_profile ev s uname) \<noteq> Ok200 v \<Longrightarrow>
   profile_cache (snd (get_instagram_profile ev s uname)) = profile_cache s"
  using try_body_raise_cache[of ev s uname]
  by (cases "try_body ev s uname") (auto simp: get_instagram_profile_def split: sum.splits)

lemma miss_fetch_raises:
  assumes "\<not> cache_contains (profile_cache s) (lower uname) (t_contains ev)"
    and "from_username ev (lower uname) = Inl e"
  shows "try_body ev s uname =
     ((case e of
         ProfileNotExistsException m \<Rightarrow>
           Inl (HTTPException 404 \<lparr>error = ''Profile not found'',
                  details = ''@'' @ uname @ '' doesn't exist on Instagram''\<rparr>)
       | _ \<Rightarrow> Inl e), s\<lparr>fetched := fetched s @ [lower uname]\<rparr>)"
  using assms by (cases e) (simp_all add: try_body_def fetch_profile_def Let_def)

lemma raised_response:
  "fst (try_body ev s uname) = Inl e \<Longrightarrow>
   fst (get_instagram_profile ev s uname) = handle_exn ev e"
  by (cases "try_body ev s uname") (simp add: get_instagram_profile_def)

text \<open>
  C1. A profile-does-not-exist failure should be answered with status 404 and details
  naming the username. The handler raises that \<open>HTTPException\<close> inside the outer
  \<^verbatim>\<open>try\<close>, where the clause \<^verbatim>\<open>except Exception\<close> catches it: the request for
  \<^verbatim>\<open>ghost\<close> on an empty cache is answered with status 500 and the error
  \<^verbatim>\<open>Internal server error\<close>, whatever the rendering \<open>h\<close> of the caught exception.
\<close>

theorem not_exists_answered_500:
  "get_instagram_profile
     ((sample_env (Inl (ProfileNotExistsException ''Profile ghost does not exist.'')) 0)
        \<lparr>str_HTTPException := h\<rparr>)
     initial_state ''ghost''
   = (HTTPError 500
        \<lparr>error = ''Internal server error'',
         details = h 404 \<lparr>error = ''Profile not found'',
                           details = ''@ghost doesn't exist on Instagram''\<rparr>\<rparr>,
      initial_state\<lparr>fetched := [''ghost'']\<rparr>)"
  by (simp add: get_instagram_profile_def try_body_def fetch_profile_def sample_env_def
      initial_state_def cache_contains_def cache_lookup_def lower_def lower_char_def)

text \<open>
  C2. A fetched record without its identifier should be answered with status 404 and
  the details \<^verbatim>\<open>Invalid profile data received\<close>, the cache left alone. The cache is left
  alone, but the 404 is again caught by \<^verbatim>\<open>except Exception\<close>: the request is answered
  with status 500 and the error \<^verbatim>\<open>Internal server error\<close>.
\<close>

theorem invalid_record_answered_500:
  "get_instagram_profile
     ((sample_env (Inr (sample_profile None)) 0)\<lparr>str_HTTPException := h\<rparr>)
     initial_state ''alice''
   = (HTTPError 500
        \<lparr>error = ''Internal server error'',
         details = h 404 \<lparr>error = ''Profile not found'',
                           details = ''Invalid profile data received''\<rparr>\<rparr>,
      initial_state\<lparr>fetched := [''alice'']\<rparr>)"
  by (simp add: get_instagram_profile_def try_body_def fetch_profile_def sample_env_def
      initial_state_def cache_contains_def cache_lookup_def lower_def lower_char_def
      sample_profile_def falsy_def)

text \<open>
  C3. On a cache miss, a fetch that fails with anything but profile-does-not-exist is
  answered by the kind of the failure: a \<open>ConnectionException\<close> with status 503 and the
  fixed advice to try again later, another \<open>InstaloaderException\<close> with status 500 and
  the source's message, anything else with status 500, the error
  \<^verbatim>\<open>Internal server error\<close> and its message. Whatever exception the body of the handler
  raises, at the fetch or later, the HTTP layer receives an \<open>HTTPError\<close>, and an exception
  that is not one of instaloader's is answered as an internal error with its message.
\<close>

theorem failure_kind_determines_outcome:
  "(\<not> cache_contains (profile_cache s) (lower uname) (t_contains ev) \<longrightarrow>
    from_username ev (lower uname) = Inl e \<longrightarrow>
    (\<forall>m. e \<noteq> ProfileNotExistsException m) \<longrightarrow>
      fst (get_instagram_profile ev s uname) =
        (case e of
           ConnectionException m \<Rightarrow>
             HTTPError 503 \<lparr>error = ''Instagram connection failed'',
                            details = ''Instagram may be blocking requests. Try again later.''\<rparr>
         | InstaloaderException m \<Rightarrow>
             HTTPError 500 \<lparr>error = ''Instagram data fetch failed'', details = m\<rparr>
         | _ \<Rightarrow> HTTPError 500 \<lparr>error = ''Internal server error'', details = str ev e\<rparr>))
   \<and> (fst (try_body ev s uname) = Inl e' \<longrightarrow>
        (\<exists>st d. fst (get_instagram_profile ev s uname) = HTTPError st d) \<and>
        ((\<forall>m. e' \<noteq> ProfileNotExistsException m \<and> e' \<noteq> ConnectionException m
              \<and> e' \<noteq> InstaloaderException m) \<longrightarrow>
           fst (get_instagram_profile ev s uname) =
             HTTPError 500 \<lparr>error = ''Internal server error'', details = str ev e'\<rparr>))"
proof (intro conjI impI)
  assume miss: "\<not> cache_contains (profile_cache s) (lower uname) (t_contains ev)"
    and fail: "from_username ev (lower uname) = Inl e"
    and ne: "\<forall>m. e \<noteq> ProfileNotExistsException m"
  from ne miss_fetch_raises[OF miss fail]
  show "fst (get_instagram_profile ev s uname) =
        (case e of
           ConnectionException m \<Rightarrow>
             HTTPError 503 \<lparr>error = ''Instagram connection failed'',
                            details = ''Instagram may be blocking requests. Try again later.''\<rparr>
         | InstaloaderException m \<Rightarrow>
             HTTPError 500 \<lparr>error = ''Instagram data fetch failed'', details = m\<rparr>
         | _ \<Rightarrow> HTTPError 500 \<lparr>error = ''Internal server error'', details = str ev e\<rparr>)"
    by (cases e) (simp_all add: get_instagram_profile_def)
next
  assume r: "fst (try_body ev s uname) = Inl e'"
  show "\<exists>st d. fst (get_instagram_profile ev s uname) = HTTPError st d"
    using raised_response[OF r] handle_exn_status[of ev e'] by auto
next
  assume r: "fst (try_body ev s uname) = Inl e'"
    and ne: "\<forall>m. e' \<noteq> ProfileNotExistsException m \<and> e' \<noteq> ConnectionException m
              \<and> e' \<noteq> InstaloaderException m"
  show "fst (get_instagram_profile ev s uname) =
             HTTPError 500 \<lparr>error = ''Internal server error'', details = str ev e'\<rparr>"
    using raised_response[OF r] ne by (cases e') simp_all
qed

lemma sample_attribute_failure:
  "fst (try_body
         (sample_env (Inr ((sample_profile (Some 42))
                             \<lparr>mediacount := Inl (KeyError ''edge_owner_to_timeline_media'')\<rparr>)) 0)
         initial_state ''alice'') = Inl (KeyError ''edge_owner_to_timeline_media'')"
  by (simp add: try_body_def fetch_profile_def sample_env_def initial_state_def
      cache_contains_def cache_lookup_def sample_profile_def falsy_def make_ProfileData_def
      bind_exn_def)

theorem failure_kind_determines_outcome_witness:
  "fst (get_instagram_profile (sample_env (Inl (ConnectionException ''timed out'')) 0)
         initial_state ''alice'')
     = HTTPError 503 \<lparr>error = ''Instagram connection failed'',
                      details = ''Instagram may be blocking requests. Try again later.''\<rparr>
   \<and> fst (get_instagram_profile (sample_env (Inl (InstaloaderException ''bad response'')) 0)
         initial_state ''alice'')
     = HTTPError 500 \<lparr>error = ''Instagram data fetch failed'', details = ''bad response''\<rparr>
   \<and> fst (get_instagram_profile
         (sample_env (Inr ((sample_profile (Some 42))
                             \<lparr>mediacount := Inl (KeyError ''edge_owner_to_timeline_media'')\<rparr>)) 0)
         initial_state ''alice'')
     = HTTPError 500 \<lparr>error = ''Internal server error'',
                      details = [CHR 0x27] @ ''edge_owner_to_timeline_media'' @ [CHR 0x27]\<rparr>"
  using failure_kind_determines_outcome[of initial_state "''alice''"
          "sample_env (Inl (ConnectionException ''timed out'')) 0"
          "ConnectionException ''timed out''"]
        failure_kind_determines_outcome[of initial_state "''alice''"
          "sample_env (Inl (InstaloaderException ''bad response'')) 0"
          "InstaloaderException ''bad response''"]
        failure_kind_determines_outcome[of initial_state "''alice''"
          "sample_env (Inr ((sample_profile (Some 42))
                             \<lparr>mediacount := Inl (KeyError ''edge_owner_to_timeline_media'')\<rparr>)) 0"
           _ "KeyError ''edge_owner_to_timeline_media''"]
        sample_attribute_failure
  by (simp add: sample_env_def initial_state_def cache_contains_def cache_lookup_def)

section \<open>Cache hits, rate-limited requests and failed requests\<close>

text \<open>
  C5. A request that the limiter denies is answered \<open>RateLimited\<close> at once: the state,
  with its cache and its log of fetches, is the one before the request.
\<close>

lemma denied_limiter: "checkAndConsume rl i now = (False, rl') \<Longrightarrow> rl' = rl"
  by (auto simp: checkAndConsume_def split: option.splits if_splits)

lemma denied_state:
  assumes "fst (checkAndConsume (limiter s) addr (t_limit ev)) = False"
  shows "limited_get_instagram_profile ev s addr uname = (RateLimited, s)"
proof (cases "checkAndConsume (limiter s) addr (t_limit ev)")
  case (Pair ok rl)
  with assms have "ok = False" by simp
  with Pair denied_limiter[of "limiter s" addr "t_limit ev" rl] show ?thesis
    by (simp add: limited_get_instagram_profile_def)
qed

theorem denied_touches_nothing:
  assumes "fst (checkAndConsume (limiter s) addr (t_limit ev)) = False"
  shows "limited_get_instagram_profile ev s addr uname = (RateLimited, s)"
  using assms by (rule denied_state)

theorem denied_touches_nothing_witness:
  "limited_get_instagram_profile (sample_env (Inr (sample_profile (Some 42))) 30)
     (initial_state\<lparr>limiter := [''10.0.0.1'' \<mapsto> \<lparr>window_start = 0, consumed = 10\<rparr>]\<rparr>)
     ''10.0.0.1'' ''alice''
   = (RateLimited,
      initial_state\<lparr>limiter := [''10.0.0.1'' \<mapsto> \<lparr>window_start = 0, consumed = 10\<rparr>]\<rparr>)"
  using denied_touches_nothing[of
     "initial_state\<lparr>limiter := [''10.0.0.1'' \<mapsto> \<lparr>window_start = 0, consumed = 10\<rparr>]\<rparr>"
     "''10.0.0.1''" "sample_env (Inr (sample_profile (Some 42))) 30" "''alice''"]
  by (simp add: checkAndConsume_def sample_env_def initial_state_def window_def limit_def)

text \<open>
  C6. When the cache holds an entry for the lower-cased username that has not expired
  when the handler reads it, the handler returns that record and hands nothing to
  \<^verbatim>\<open>Profile.from_username\<close>, whatever the casing of the username in the request: after
  a fetch of \<^verbatim>\<open>alice\<close>, a request for \<^verbatim>\<open>ALICE\<close> half an hour later is served
  from the cache.
\<close>

theorem cache_hit_no_fetch:
  assumes "t_contains ev \<le> t_getitem ev"
    and "cache_lookup (profile_cache s) (lower uname) (t_getitem ev) = Some v"
  shows "fst (get_instagram_profile ev s uname) = Ok200 v
       \<and> fetched (snd (get_instagram_profile ev s uname)) = fetched s"
  using assms cache_lookup_earlier[OF assms(2) assms(1)]
  by (simp add: get_instagram_profile_def try_body_def cache_contains_def cache_get_def)

lemma sample_fetch:
  "get_instagram_profile (sample_env (Inr (sample_profile (Some 42))) 0) initial_state ''alice''
   = (Ok200 sample_data,
      \<lparr>profile_cache = [\<lparr>entry_key = ''alice'', entry_record = sample_data, expires = 3600\<rparr>],
       limiter = Map.empty, fetched = [''alice'']\<rparr>)"
  by (simp add: get_instagram_profile_def try_body_def fetch_profile_def sample_env_def
      initial_state_def cache_contains_def cache_lookup_def lower_def lower_char_def
      sample_profile_def falsy_def make_ProfileData_def bind_exn_def sample_data_def
      cache_put_def expire_def ttl_def)

theorem cache_hit_no_fetch_witness:
  "fst (get_instagram_profile (sample_env (Inl (ConnectionException ''offline'')) 1800)
         (snd (get_instagram_profile (sample_env (Inr (sample_profile (Some 42))) 0)
                 initial_state ''alice''))
         ''ALICE'') = Ok200 sample_data
   \<and> fetched (snd (get_instagram_profile (sample_env (Inl (ConnectionException ''offline'')) 1800)
         (snd (get_instagram_profile (sample_env (Inr (sample_profile (Some 42))) 0)
                 initial_state ''alice''))
         ''ALICE'')) = [''alice'']"
  using cache_hit_no_fetch[of "sample_env (Inl (ConnectionException ''offline'')) 1800"
          "snd (get_instagram_profile (sample_env (Inr (sample_profile (Some 42))) 0)
                 initial_state ''alice'')" "''ALICE''" sample_data]
  by (simp add: sample_fetch)
     (simp add: sample_env_def cache_lookup_def lower_def lower_char_def)

text \<open>
  C10. A request that is not answered with a \<open>ProfileData\<close>, be it rate limited or
  answered with any \<open>HTTPError\<close>, leaves the profile cache exactly as it was.
\<close>

theorem failure_leaves_cache:
  assumes "\<forall>v. fst (limited_get_instagram_profile ev s addr uname) \<noteq> Ok200 v"
  shows "profile_cache (snd (limited_get_instagram_profile ev s addr uname)) = profile_cache s"
proof (cases "checkAndConsume (limiter s) addr (t_limit ev)")
  case (Pair ok rl)
  show ?thesis
  proof (cases ok)
    case True
    with Pair assms show ?thesis
      using handler_failure_cache[of ev "s\<lparr>limiter := rl\<rparr>" uname]
      by (simp add: limited_get_instagram_profile_def)
  next
    case False
    with Pair show ?thesis by (simp add: limited_get_instagram_profile_def)
  qed
qed

lemma sample_failure:
  "fst (limited_get_instagram_profile (sample_env (Inl (ConnectionException ''offline'')) 10)
     \<lparr>profile_cache = [\<lparr>entry_key = ''alice'', entry_record = sample_data, expires = 3600\<rparr>],
       limiter = Map.empty, fetched = [''alice'']\<rparr> ''10.0.0.1'' ''bob'')
   = HTTPError 503 \<lparr>error = ''Instagram connection failed'',
                      details = ''Instagram may be blocking requests. Try again later.''\<rparr>"
  by (simp add: limited_get_instagram_profile_def checkAndConsume_def get_instagram_profile_def
      try_body_def fetch_profile_def sample_env_def cache_contains_def cache_lookup_def
      lower_def lower_char_def)

theorem failure_leaves_cache_witness:
  "profile_cache (snd (limited_get_instagram_profile
     (sample_env (Inl (ConnectionException ''offline'')) 10)
     \<lparr>profile_cache = [\<lparr>entry_key = ''alice'', entry_record = sample_data, expires = 3600\<rparr>],
       limiter = Map.empty, fetched = [''alice'']\<rparr> ''10.0.0.1'' ''bob''))
   = [\<lparr>entry_key = ''alice'', entry_record = sample_data, expires = 3600\<rparr>]"
  using failure_leaves_cache[of "sample_env (Inl (ConnectionException ''offline'')) 10"
     "\<lparr>profile_cache = [\<lparr>entry_key = ''alice'', entry_record = sample_data, expires = 3600\<rparr>],
       limiter = Map.empty, fetched = [''alice'']\<rparr>" "''10.0.0.1''" "''bob''"]
  by (simp add: sample_failure)

section \<open>The HTTP surface: routes, status codes and the health check\<close>



















text \<open>
  C9, as the specification states it: the body of \<^verbatim>\<open>GET /health\<close> has a field
  \<^verbatim>\<open>cacheSize\<close>. The dictionary that \<^verbatim>\<open>health_check\<close> returns has no such key.
\<close>

theorem cacheSize_field_counterexample:
  "map_of (snd (health_response 0 0 initial_state)) ''cacheSize'' = None"
  by (simp add: health_response_def health_check_def)


text \<open>
  C9, amended: in every state \<^verbatim>\<open>GET /health\<close> is answered with status 200 and a body
  with \<^verbatim>\<open>status\<close> equal to \<^verbatim>\<open>healthy\<close>, \<^verbatim>\<open>timestamp\<close> equal to the current time and
  \<^verbatim>\<open>cache_size\<close> equal to the number of entries of the profile cache that have not
  expired.
\<close>

theorem health_check_body:
  "route ''GET'' [''health''] = Some HealthCheck
   \<and> fst (health_response time_now cache_now s) = 200
   \<and> map_of (snd (health_response time_now cache_now s)) ''status'' = Some (JString ''healthy'')
   \<and> map_of (snd (health_response time_now cache_now s)) ''timestamp'' = Some (JFloat time_now)
   \<and> map_of (snd (health_response time_now cache_now s)) ''cache_size''
       = Some (JInt (int (length (filter (\<lambda>e. cache_now < expires e) (profile_cache s)))))"
  by (simp add: route_def health_response_def health_check_def cache_len_def expire_def)

section \<open>Guarantees of the cache\<close>

lemma make_room_drop: "make_room n xs = drop (Suc (length xs) - n) xs"
proof (induction xs)
  case Nil
  show ?case by simp
next
  case (Cons e c)
  show ?case
  proof (cases "length (e # c) + 1 > n")
    case True
    then have "Suc (length (e # c)) - n = Suc (Suc (length c) - n)" by simp
    with True Cons show ?thesis by simp
  next
    case False
    then show ?thesis by simp
  qed
qed

lemma length_make_room: "0 < n \<Longrightarrow> Suc (length (make_room n xs)) \<le> n"
  by (simp add: make_room_drop)

lemma set_make_room: "set (make_room n xs) \<subseteq> set xs"
  by (simp add: make_room_drop set_drop_subset)

lemma distinct_make_room:
  "distinct (map entry_key xs) \<Longrightarrow> distinct (map entry_key (make_room n xs))"
  by (simp add: make_room_drop drop_map[symmetric] distinct_drop)

lemma cache_inv_put: 
  assumes "cache_inv c"
  shows "cache_inv (cache_put maxsize ttl c k v now)"
proof -
  let ?xs = "filter (\<lambda>e. entry_key e \<noteq> k) (expire c now)"
  have d: "distinct (map entry_key ?xs)"
    using assms by (simp add: cache_inv_def expire_def distinct_map_filter)
  have "k \<notin> entry_key ` set ?xs" by auto
  with set_make_room[of maxsize ?xs] have "k \<notin> entry_key ` set (make_room maxsize ?xs)"
    by blast
  moreover have "0 < maxsize" by (simp add: maxsize_def)
  ultimately show ?thesis
    using distinct_make_room[OF d, of maxsize] length_make_room[of maxsize ?xs]
    by (simp add: cache_inv_def cache_put_def)
qed

lemma set_touch: "set (touch c k) = set c"
  by (auto simp: touch_def)

lemma length_touch: "length (touch c k) = length c"
  by (simp add: touch_def sum_length_filter_compl add.commute)

lemma distinct_touch:
  "distinct (map entry_key c) \<Longrightarrow> distinct (map entry_key (touch c k))"
  by (auto simp: touch_def distinct_map_filter)

lemma cache_inv_get: "cache_inv c \<Longrightarrow> cache_inv (snd (cache_get c k now))"
  by (simp add: cache_inv_def cache_get_def distinct_touch length_touch split: option.splits)

lemma cache_inv_apply: "cache_inv c \<Longrightarrow> cache_inv (apply_cache_op c x)"
  by (cases x) (simp_all add: cache_inv_put cache_inv_get)

lemma cache_inv_run: "cache_inv c \<Longrightarrow> cache_inv (run_cache c ops)"
  unfolding run_cache_def by (induction ops arbitrary: c) (simp_all add: cache_inv_apply)

lemma cache_inv_empty: "cache_inv []"
  by (simp add: cache_inv_def)

lemma find_append_key:
  "find P (xs @ ys) = (case find P xs of None \<Rightarrow> find P ys | Some x \<Rightarrow> Some x)"
  by (induction xs) simp_all

lemma find_none: "(\<forall>x\<in>set xs. \<not> P x) \<Longrightarrow> find P xs = None"
  by (induction xs) simp_all

lemma cache_lookup_put:
  "cache_lookup (cache_put maxsize ttl c k v now) k t = (if t < now + ttl then Some v else None)"
proof -
  let ?xs = "make_room maxsize (filter (\<lambda>e. entry_key e \<noteq> k) (expire c now))"
  have "\<forall>e\<in>set ?xs. \<not> entry_key e = k"
    using set_make_room[of maxsize "filter (\<lambda>e. entry_key e \<noteq> k) (expire c now)"] by auto
  then have "find (\<lambda>e. entry_key e = k) ?xs = None" by (rule find_none)
  then show ?thesis
    by (simp add: cache_lookup_def cache_put_def find_append_key)
qed

lemma find_filter_same:
  "find (\<lambda>e. entry_key e = k) (filter (\<lambda>e. entry_key e = k) c) = find (\<lambda>e. entry_key e = k) c"
  by (induction c) simp_all

lemma find_filter_other:
  "j \<noteq> k \<Longrightarrow>
   find (\<lambda>e. entry_key e = k) (filter (\<lambda>e. entry_key e \<noteq> j) c) = find (\<lambda>e. entry_key e = k) c"
  by (induction c) auto

lemma find_touch: "find (\<lambda>e. entry_key e = k) (touch c j) = find (\<lambda>e. entry_key e = k) c"
proof (cases "j = k")
  case True
  have "find (\<lambda>e. entry_key e = k) (filter (\<lambda>e. entry_key e \<noteq> k) c) = None"
    by (rule find_none) simp
  with True show ?thesis by (simp add: touch_def find_append_key find_filter_same)
next
  case False
  have "find (\<lambda>e. entry_key e = k) (filter (\<lambda>e. entry_key e = j) c) = None"
    by (rule find_none) (use False in auto)
  with False show ?thesis
    by (simp add: touch_def find_append_key find_filter_other split: option.splits)
qed

lemma cache_lookup_touch: "cache_lookup (touch c j) k t = cache_lookup c k t"
  by (simp add: cache_lookup_def find_touch)

lemma cache_lookup_get: "cache_lookup (snd (cache_get c j now)) k t = cache_lookup c k t"
  by (cases "cache_lookup c j now") (simp_all add: cache_get_def cache_lookup_touch)

lemma cache_lookup_read:
  "is_read x \<Longrightarrow> cache_lookup (apply_cache_op c x) k t = cache_lookup c k t"
  by (cases x) (simp_all add: cache_lookup_get)

lemma cache_lookup_reads:
  "list_all is_read reads \<Longrightarrow> cache_lookup (run_cache c reads) k t = cache_lookup c k t"
  unfolding run_cache_def
  by (induction reads arbitrary: c) (simp_all add: cache_lookup_read)

lemma put_fresh:
  assumes "\<forall>e\<in>set c. now < expires e" and "k \<notin> entry_key ` set c"
  shows "cache_put maxsize ttl c k v now
         = make_room maxsize c @ [\<lparr>entry_key = k, entry_record = v, expires = now + ttl\<rparr>]"
proof -
  have "expire c now = c" using assms(1) by (simp add: expire_def)
  moreover have "filter (\<lambda>e. entry_key e \<noteq> k) c = c" using assms(2) by (auto simp: filter_id_conv)
  ultimately show ?thesis by (simp add: cache_put_def)
qed

lemma puts_with_room:
  assumes "\<forall>e\<in>set c. \<forall>p\<in>set puts. snd (snd p) < expires e"
    and "\<forall>p\<in>set puts. \<forall>q\<in>set puts. snd (snd p) < snd (snd q) + ttl"
    and "distinct (map fst puts)"
    and "fst ` set puts \<inter> entry_key ` set c = {}"
    and "length c + length puts \<le> maxsize"
  shows "run_cache c (map put_op puts) = c @ map entry_of puts"
  using assms
proof (induction puts arbitrary: c)
  case Nil
  show ?case by (simp add: run_cache_def)
next
  case (Cons p puts)
  obtain k v now where p: "p = (k, v, now)" by (cases p)
  let ?new = "\<lparr>entry_key = k, entry_record = v, expires = now + ttl\<rparr>"
  have live: "\<forall>e\<in>set c. now < expires e" using Cons.prems(1) p by auto
  have fr: "k \<notin> entry_key ` set c" using Cons.prems(4) p by auto
  have room: "make_room maxsize c = c"
    using Cons.prems(5) by (simp add: make_room_drop)
  have step: "cache_put maxsize ttl c k v now = c @ [?new]"
    using put_fresh[OF live fr] room by simp
  have "run_cache (c @ [?new]) (map put_op puts) = (c @ [?new]) @ map entry_of puts"
  proof (rule Cons.IH)
    show "\<forall>e\<in>set (c @ [?new]). \<forall>q\<in>set puts. snd (snd q) < expires e"
      using Cons.prems(1,2) p by auto
    show "\<forall>q\<in>set puts. \<forall>r\<in>set puts. snd (snd q) < snd (snd r) + ttl"
      using Cons.prems(2) by auto
    show "distinct (map fst puts)" using Cons.prems(3) by simp
    show "fst ` set puts \<inter> entry_key ` set (c @ [?new]) = {}"
      using Cons.prems(3,4) p by auto
    show "length (c @ [?new]) + length puts \<le> maxsize" using Cons.prems(5) by simp
  qed
  then show ?case using step p by (simp add: run_cache_def entry_of_def)
qed

lemma one_eviction:
  assumes len: "length puts = Suc maxsize"
    and dist: "distinct (map fst puts)"
    and near: "\<forall>p\<in>set puts. \<forall>q\<in>set puts. snd (snd p) < snd (snd q) + ttl"
  shows "run_cache [] (map put_op puts) = map entry_of (tl puts)"
proof -
  from len have ne: "puts \<noteq> []" by auto
  define ps where "ps = butlast puts"
  define p where "p = last puts"
  have split: "puts = ps @ [p]" using ne by (simp add: ps_def p_def)
  obtain k v now where p: "p = (k, v, now)" by (cases p)
  let ?new = "\<lparr>entry_key = k, entry_record = v, expires = now + ttl\<rparr>"
  have lps: "length ps = maxsize" using len split by simp
  have first: "run_cache [] (map put_op ps) = map entry_of ps"
    using puts_with_room[of "[]" ps] near dist lps split by simp
  have live: "\<forall>e\<in>set (map entry_of ps). now < expires e"
    using near split p by (auto simp: entry_of_def)
  have fr: "k \<notin> entry_key ` set (map entry_of ps)"
    using dist split p by (force simp: entry_of_def)
  have "0 < maxsize" by (simp add: maxsize_def)
  then have room: "make_room maxsize (map entry_of ps) = tl (map entry_of ps)"
    using lps by (simp add: make_room_drop drop_Suc)
  have "run_cache [] (map put_op puts) = cache_put maxsize ttl (map entry_of ps) k v now"
    using first split p by (simp add: run_cache_def)
  also have "\<dots> = tl (map entry_of ps) @ [?new]"
    using put_fresh[OF live fr] room by simp
  also have "\<dots> = map entry_of (tl puts)"
  proof -
    have "ps \<noteq> []" using lps \<open>0 < maxsize\<close> by auto
    then show ?thesis using split p by (simp add: entry_of_def map_tl)
  qed
  finally show ?thesis .
qed

lemma entry_of_tuple:
  "entry_of = (\<lambda>(k, v, now). \<lparr>entry_key = k, entry_record = v, expires = now + 3600\<rparr>)"
  by (auto simp: entry_of_def ttl_def fun_eq_iff)


text \<open>
  C7. After any sequence of operations on the empty cache, no two entries have the same
  key and there are at most 1000 entries. Putting 1001 distinct keys into the empty
  cache, at times less than 3600 seconds apart, leaves exactly the entries of the last
  1000 keys: the first key, and no other, has been evicted. An entry put at a time
  \<open>now\<close> is found by a lookup exactly until \<open>now + 3600\<close>, whatever reads come between.
\<close>

theorem cache_guarantees:
  "distinct (map entry_key (run_cache [] ops))
   \<and> length (run_cache [] ops) \<le> 1000
   \<and> (length puts = 1001 \<and> distinct (map fst puts)
        \<and> (\<forall>p\<in>set puts. \<forall>q\<in>set puts. snd (snd p) < snd (snd q) + 3600) \<longrightarrow>
          run_cache [] (map put_op puts)
            = map (\<lambda>(k, v, now). \<lparr>entry_key = k, entry_record = v, expires = now + 3600\<rparr>)
                (tl puts)
          \<and> length (run_cache [] (map put_op puts)) = 1000)
   \<and> (list_all is_read reads \<longrightarrow>
        cache_lookup
          (run_cache (cache_put maxsize ttl (run_cache [] ops) k v now) reads) k t
        = (if t < now + 3600 then Some v else None))"
proof (intro conjI impI)
  have inv: "cache_inv (run_cache [] ops)"
    by (rule cache_inv_run[OF cache_inv_empty])
  show "distinct (map entry_key (run_cache [] ops))" using inv by (simp add: cache_inv_def)
  show "length (run_cache [] ops) \<le> 1000" using inv by (simp add: cache_inv_def maxsize_def)
next
  assume h: "length puts = 1001 \<and> distinct (map fst puts)
        \<and> (\<forall>p\<in>set puts. \<forall>q\<in>set puts. snd (snd p) < snd (snd q) + 3600)"
  then have "length puts = Suc maxsize" by (simp add: maxsize_def)
  moreover from h have "distinct (map fst puts)" by simp
  moreover from h have "\<forall>p\<in>set puts. \<forall>q\<in>set puts. snd (snd p) < snd (snd q) + ttl"
    by (simp add: ttl_def)
  ultimately have e: "run_cache [] (map put_op puts) = map entry_of (tl puts)"
    by (rule one_eviction)
  then show "run_cache [] (map put_op puts)
            = map (\<lambda>(k, v, now). \<lparr>entry_key = k, entry_record = v, expires = now + 3600\<rparr>)
                (tl puts)"
    by (simp add: entry_of_tuple)
  from e h show "length (run_cache [] (map put_op puts)) = 1000" by simp
next
  assume "list_all is_read reads"
  then show "cache_lookup
          (run_cache (cache_put maxsize ttl (run_cache [] ops) k v now) reads) k t
        = (if t < now + 3600 then Some v else None)"
    using cache_lookup_put[of "run_cache [] ops" k v now t]
    by (simp add: cache_lookup_reads ttl_def)
qed


lemma sample_key_inj: "sample_key m = sample_key n \<Longrightarrow> m = n"
  by (drule arg_cong[where f = length]) (simp add: sample_key_def)

lemma sample_puts_facts:
  "length (sample_puts n) = n"
  "distinct (map fst (sample_puts n))"
  "\<forall>p\<in>set (sample_puts n). \<forall>q\<in>set (sample_puts n). snd (snd p) < snd (snd q) + 3600"
  by (auto simp: sample_puts_def distinct_map o_def inj_on_def dest: sample_key_inj)


theorem cache_guarantees_witness:
  "run_cache [] (map put_op (sample_puts 1001))
     = map (\<lambda>(k, v, now). \<lparr>entry_key = k, entry_record = v, expires = now + 3600\<rparr>)
         (tl (sample_puts 1001))
   \<and> length (run_cache [] (map put_op (sample_puts 1001))) = 1000
   \<and> cache_lookup
        (run_cache (cache_put maxsize ttl (run_cache [] [Put ''bob'' sample_data 2]) ''alice'' sample_data 5)
           [Contains ''alice'' 10, Get ''alice'' 3000, Len 3100]) ''alice'' 3604
      = Some sample_data
   \<and> cache_lookup
        (run_cache (cache_put maxsize ttl (run_cache [] [Put ''bob'' sample_data 2]) ''alice'' sample_data 5)
           [Contains ''alice'' 10, Get ''alice'' 3000, Len 3100]) ''alice'' 3605
      = None"
  using cache_guarantees[of "[Put ''bob'' sample_data 2]" "sample_puts 1001"
          "[Contains ''alice'' 10, Get ''alice'' 3000, Len 3100]" "''alice''" sample_data 5 3604]
        cache_guarantees[of "[Put ''bob'' sample_data 2]" "sample_puts 1001"
          "[Contains ''alice'' 10, Get ''alice'' 3000, Len 3100]" "''alice''" sample_data 5 3605]
        sample_puts_facts[of 1001]
  by simp

section \<open>Guarantees of the rate limiter\<close>

lemma check_other: "j \<noteq> i \<Longrightarrow> snd (checkAndConsume rl j now) i = rl i"
  by (simp add: checkAndConsume_def split: option.splits)

lemma check_local:
  "rl i = rl2 i \<Longrightarrow>
   fst (checkAndConsume rl i now) = fst (checkAndConsume rl2 i now)
   \<and> snd (checkAndConsume rl i now) i = snd (checkAndConsume rl2 i now) i"
  by (simp add: checkAndConsume_def split: option.splits)

lemma decisions_local:
  "rl i = rl2 i \<Longrightarrow> decisions rl i reqs = decisions rl2 i (filter (\<lambda>r. fst r = i) reqs)"
proof (induction reqs arbitrary: rl rl2)
  case Nil
  show ?case by simp
next
  case (Cons r reqs)
  obtain j now where r: "r = (j, now)" by (cases r)
  show ?case
  proof (cases "j = i")
    case True
    obtain ok rl' where c1: "checkAndConsume rl i now = (ok, rl')"
      by (cases "checkAndConsume rl i now")
    obtain ok2 rl2' where c2: "checkAndConsume rl2 i now = (ok2, rl2')"
      by (cases "checkAndConsume rl2 i now")
    from check_local[of rl i rl2 now] Cons.prems c1 c2 have "ok = ok2" and "rl' i = rl2' i"
      by simp_all
    with Cons.IH[of rl' rl2'] True r c1 c2 show ?thesis by simp
  next
    case False
    obtain ok rl' where c1: "checkAndConsume rl j now = (ok, rl')"
      by (cases "checkAndConsume rl j now")
    from check_other[OF False, of rl now] c1 Cons.prems have "rl' i = rl2 i" by simp
    with Cons.IH[of rl' rl2] False r c1 show ?thesis by simp
  qed
qed

lemma check_open:
  "fresh rl i w \<Longrightarrow> w \<le> now \<Longrightarrow>
   checkAndConsume rl i now = (True, rl(i \<mapsto> \<lparr>window_start = now, consumed = 1\<rparr>))"
  by (cases "rl i") (simp_all add: checkAndConsume_def fresh_def)

lemma check_admit:
  "rl i = Some b \<Longrightarrow> now < window_start b + window \<Longrightarrow> consumed b < limit \<Longrightarrow>
   checkAndConsume rl i now = (True, rl(i \<mapsto> b\<lparr>consumed := consumed b + 1\<rparr>))"
  by (simp add: checkAndConsume_def)

lemma check_deny:
  "rl i = Some b \<Longrightarrow> now < window_start b + window \<Longrightarrow> \<not> consumed b < limit \<Longrightarrow>
   checkAndConsume rl i now = (False, rl)"
  by (simp add: checkAndConsume_def)

lemma decisions_in_window:
  assumes "rl i = Some b"
    and "\<forall>r\<in>set reqs. fst r = i \<and> snd r < window_start b + window"
  shows "decisions rl i reqs =
           replicate (min (length reqs) (limit - consumed b)) True
           @ replicate (length reqs - (limit - consumed b)) False"
  using assms
proof (induction reqs arbitrary: rl b)
  case Nil
  show ?case by simp
next
  case (Cons r reqs)
  from Cons.prems(2) have fr: "fst r = i" and tr: "snd r < window_start b + window"
    and rest: "\<forall>r\<in>set reqs. fst r = i \<and> snd r < window_start b + window"
    by simp_all
  obtain now where r: "r = (i, now)" using fr by (cases r) simp
  have inw: "now < window_start b + window" using tr r by simp
  show ?case
  proof (cases "consumed b < limit")
    case True
    define b' where "b' = b\<lparr>consumed := consumed b + 1\<rparr>"
    define rl' where "rl' = rl(i \<mapsto> b')"
    have c: "checkAndConsume rl i now = (True, rl')"
      using check_admit[of rl i b now] Cons.prems(1) inw True by (simp add: rl'_def b'_def)
    have ws: "window_start b' = window_start b" and cb: "consumed b' = Suc (consumed b)"
      by (simp_all add: b'_def)
    have h1: "rl' i = Some b'" by (simp add: rl'_def)
    have h2: "\<forall>r\<in>set reqs. fst r = i \<and> snd r < window_start b' + window"
      using rest ws by simp
    have ih: "decisions rl' i reqs =
           replicate (min (length reqs) (limit - consumed b')) True
           @ replicate (length reqs - (limit - consumed b')) False"
      using Cons.IH[of rl' b'] h1 h2 by blast
    have m: "min (Suc (length reqs)) (limit - consumed b)
         = Suc (min (length reqs) (limit - consumed b'))"
      using True cb by simp
    have d: "Suc (length reqs) - (limit - consumed b)
         = length reqs - (limit - consumed b')"
      using True cb by simp
    have "decisions rl i (r # reqs) = True # decisions rl' i reqs"
      using c r by simp
    also have "\<dots> = replicate (min (Suc (length reqs)) (limit - consumed b)) True
           @ replicate (Suc (length reqs) - (limit - consumed b)) False"
      unfolding ih m d by simp
    finally show ?thesis by simp
  next
    case False
    have c: "checkAndConsume rl i now = (False, rl)"
      using check_deny[of rl i b now] Cons.prems(1) inw False by blast
    have z: "limit - consumed b = 0" using False by simp
    have ih: "decisions rl i reqs =
           replicate (min (length reqs) (limit - consumed b)) True
           @ replicate (length reqs - (limit - consumed b)) False"
      using Cons.IH[of rl b] Cons.prems(1) rest by blast
    have "decisions rl i (r # reqs) = False # decisions rl i reqs"
      using c r by simp
    also have "\<dots> = False # replicate (length reqs) False"
      unfolding ih z by simp
    finally show ?thesis unfolding z by simp
  qed
qed

lemma decisions_fresh_window:
  assumes fr: "fresh rl i w"
    and win: "\<forall>r\<in>set reqs. fst r = i \<and> w \<le> snd r \<and> snd r < w + window"
  shows "decisions rl i reqs =
           replicate (min (length reqs) limit) True @ replicate (length reqs - limit) False"
proof (cases reqs)
  case Nil
  then show ?thesis by simp
next
  case (Cons r rest)
  from win Cons have fi: "fst r = i" and lo: "w \<le> snd r"
    and tl: "\<forall>r\<in>set rest. fst r = i \<and> snd r < w + window"
    by simp_all
  obtain now where r: "r = (i, now)" using fi by (cases r) simp
  define b where "b = \<lparr>window_start = now, consumed = 1\<rparr>"
  define rl' where "rl' = rl(i \<mapsto> b)"
  have wn: "w \<le> now" using lo r by simp
  have c: "checkAndConsume rl i now = (True, rl')"
    using check_open[of rl i w now] fr wn by (simp add: rl'_def b_def)
  have h1: "rl' i = Some b" by (simp add: rl'_def)
  have h2: "\<forall>r\<in>set rest. fst r = i \<and> snd r < window_start b + window"
  proof
    fix q assume "q \<in> set rest"
    with tl have "fst q = i" and "snd q < w + window" by simp_all
    moreover have "window_start b = now" by (simp add: b_def)
    ultimately show "fst q = i \<and> snd q < window_start b + window" using wn by simp
  qed
  have ih: "decisions rl' i rest =
           replicate (min (length rest) (limit - consumed b)) True
           @ replicate (length rest - (limit - consumed b)) False"
    using decisions_in_window[of rl' i b rest] h1 h2 by blast
  have cb: "consumed b = 1" by (simp add: b_def)
  have "0 < limit" by (simp add: limit_def)
  then have m: "min (Suc (length rest)) limit = Suc (min (length rest) (limit - 1))"
    and d: "Suc (length rest) - limit = length rest - (limit - 1)" by simp_all
  have "decisions rl i reqs = True # decisions rl' i rest"
    using c r Cons by simp
  also have "\<dots> = replicate (min (Suc (length rest)) limit) True
           @ replicate (Suc (length rest) - limit) False"
    unfolding ih cb m d by simp
  finally show ?thesis using Cons by simp
qed

lemma admitted_le_decisions:
  "length (filter (\<lambda>(r, ok). ok \<and> P r) (zip xs ds)) \<le> length (filter (\<lambda>ok. ok) ds)"
proof (induction ds arbitrary: xs)
  case Nil
  show ?case by simp
next
  case (Cons d ds)
  show ?case
  proof (cases xs)
    case Nil
    then show ?thesis by simp
  next
    case (Cons x xs')
    with Cons.IH[of xs'] show ?thesis by simp
  qed
qed


text \<open>
  C8, as the specification states it: within any 60-second window no identity is
  admitted more than ten times. A budget counts from the request that opens its window,
  so that an interval of 60 seconds across the end of a window holds the admissions of
  two budgets: of the twenty requests of \<open>burst_requests\<close>, all admitted, nineteen fall
  in the 60 seconds from time 59.
\<close>

theorem sliding_window_counterexample:
  "admitted_in Map.empty ''10.0.0.1'' burst_requests 59 (59 + 60) = 19"
  by (simp add: admitted_in_def burst_requests_def checkAndConsume_def window_def limit_def)

text \<open>
  C8, amended: within any window of the limiter, which is the 60 seconds from a time
  \<open>w\<close> at which the identity has no window running, no identity is admitted more than
  ten times: of its requests in the window the first ten are admitted and every later
  one is denied and answered with status 429. The decisions on an identity's requests
  are the same when the requests of all other identities are removed from the sequence.
\<close>

theorem rate_limit_per_identity:
  "(fresh rl i w \<and> (\<forall>r\<in>set reqs. fst r = i \<longrightarrow> w \<le> snd r \<and> snd r < w + 60) \<longrightarrow>
      decisions rl i reqs
        = replicate (min (length (filter (\<lambda>r. fst r = i) reqs)) 10) True
          @ replicate (length (filter (\<lambda>r. fst r = i) reqs) - 10) False
      \<and> length (filter (\<lambda>ok. ok) (decisions rl i reqs)) \<le> 10
      \<and> admitted_in rl i reqs w (w + 60) \<le> 10)
   \<and> decisions rl i reqs = decisions rl i (filter (\<lambda>r. fst r = i) reqs)
   \<and> (fst (checkAndConsume (limiter s) i (t_limit ev)) = False \<longrightarrow>
        status_code (fst (limited_get_instagram_profile ev s i uname)) = 429)"
proof (intro conjI impI)
  show ind: "decisions rl i reqs = decisions rl i (filter (\<lambda>r. fst r = i) reqs)"
    using decisions_local[of rl i rl reqs] by simp
  assume h: "fresh rl i w \<and> (\<forall>r\<in>set reqs. fst r = i \<longrightarrow> w \<le> snd r \<and> snd r < w + 60)"
  let ?own = "filter (\<lambda>r. fst r = i) reqs"
  from h have fr: "fresh rl i w" by simp
  from h have win: "\<forall>r\<in>set ?own. fst r = i \<and> w \<le> snd r \<and> snd r < w + window"
    by (simp add: window_def)
  have "decisions rl i ?own
        = replicate (min (length ?own) limit) True @ replicate (length ?own - limit) False"
    using decisions_fresh_window[of rl i w ?own] fr win by blast
  with ind show d: "decisions rl i reqs
        = replicate (min (length ?own) 10) True @ replicate (length ?own - 10) False"
    by (simp add: limit_def)
  show l: "length (filter (\<lambda>ok. ok) (decisions rl i reqs)) \<le> 10"
    unfolding d by simp
  show "admitted_in rl i reqs w (w + 60) \<le> 10"
    unfolding admitted_in_def
    using admitted_le_decisions[of "\<lambda>r. w \<le> snd r \<and> snd r < w + 60" ?own "decisions rl i reqs"] l
    by simp
next
  assume "fst (checkAndConsume (limiter s) i (t_limit ev)) = False"
  then show "status_code (fst (limited_get_instagram_profile ev s i uname)) = 429"
    by (simp add: denied_state)
qed

theorem rate_limit_per_identity_witness:
  "decisions Map.empty ''10.0.0.1'' sample_requests
     = [True, True, True, True, True, True, True, True, True, True, False]
   \<and> admitted_in Map.empty ''10.0.0.1'' sample_requests 0 (0 + 60) \<le> 10
   \<and> decisions Map.empty ''10.0.0.2'' sample_requests = [True, True]
   \<and> status_code (fst (limited_get_instagram_profile (sample_env (Inr (sample_profile (Some 42))) 30)
     (initial_state\<lparr>limiter := [''10.0.0.1'' \<mapsto> \<lparr>window_start = 0, consumed = 10\<rparr>]\<rparr>)
     ''10.0.0.1'' ''alice'')) = 429"
  using rate_limit_per_identity[of Map.empty "''10.0.0.1''" 0 sample_requests
          "initial_state\<lparr>limiter := [''10.0.0.1'' \<mapsto> \<lparr>window_start = 0, consumed = 10\<rparr>]\<rparr>"
          "sample_env (Inr (sample_profile (Some 42))) 30" "''alice''"]
        rate_limit_per_identity[of Map.empty "''10.0.0.2''" 1 sample_requests]
  by (simp add: sample_requests_def checkAndConsume_def sample_env_def initial_state_def window_def limit_def fresh_def)


end
